theory Spec2Isabelle
  imports Main
begin

section \<open>The st2kv lookup plugin (lookup\_plugins/st2kv.py)\<close>

subsection \<open>Python values, truthiness and formatting\<close>

text \<open>
  The keyword arguments of \<open>LookupModule.run\<close> arrive as a Python dict of arbitrary
  values. The values modelled are \<open>None\<close>, booleans, integers and strings: the types
  the plugin's options are documented with, and what a playbook can pass for them.
\<close>

datatype pyval = PNone | PBool bool | PInt int | PStr string

text \<open>Python's truth test, as used by \<open>if x\<close> and \<open>if not x\<close>.\<close>

fun truthy :: "pyval \<Rightarrow> bool" where
  "truthy PNone = False"
| "truthy (PBool b) = b"
| "truthy (PInt i) = (i \<noteq> 0)"
| "truthy (PStr s) = (s \<noteq> [])"

text \<open>Decimal digits of a natural number, as \<open>str\<close> prints an integer.\<close>

fun str_nat :: "nat \<Rightarrow> string" where
  "str_nat n =
     (if n < 10 then [char_of (48 + n)]
      else str_nat (n div 10) @ [char_of (48 + n mod 10)])"

declare str_nat.simps [simp del]

definition str_int :: "int \<Rightarrow> string" where
  "str_int i = (if i < 0 then CHR ''-'' # str_nat (nat (- i)) else str_nat (nat i))"

text \<open>What \<open>'{}'.format(v)\<close> inserts for a value \<open>v\<close>.\<close>

fun format :: "pyval \<Rightarrow> string" where
  "format PNone = ''None''"
| "format (PBool b) = (if b then ''True'' else ''False'')"
| "format (PInt i) = str_int i"
| "format (PStr s) = s"

subsection \<open>Exceptions\<close>

text \<open>
  Exceptions are values. \<open>AnsibleError\<close> carries the literal message the plugin raises
  it with. The exceptions of the interpreter and of the requests library carry the text
  they were raised with, where the library chooses it. \<open>Locating term e\<close> is the
  \<open>AnsibleError\<close> raised at the end of \<open>run\<close>, whose message is
  \<open>"Error locating '%s' in kv store. Error was %s" % (term, e)\<close>: it is kept as
  the pair of the term and the exception that the message is formatted from.
\<close>

datatype exn =
    AnsibleError string
  | KeyError string
  | TypeError
  | ValueError string
  | HTTPError string
  | RequestException string
  | Locating "string option" exn

subsection \<open>\<open>str.split\<close> and \<open>str.join\<close>\<close>

text \<open>
  \<open>s.split(sep)\<close> for a one-character separator: the pieces between the occurrences of
  \<open>sep\<close>, empty pieces kept; always at least one piece.
\<close>

fun split :: "char \<Rightarrow> string \<Rightarrow> string list" where
  "split sep [] = [[]]"
| "split sep (c # cs) =
     (if c = sep then [] # split sep cs
      else (case split sep cs of
              [] \<Rightarrow> [[c]]
            | p # ps \<Rightarrow> (c # p) # ps))"

fun join :: "string \<Rightarrow> string list \<Rightarrow> string" where
  "join sep [] = []"
| "join sep [p] = p"
| "join sep (p # q # ps) = p @ sep @ join sep (q # ps)"

subsection \<open>\<open>LookupModule.parse_scope_key\<close>\<close>

text \<open>
  A term is a Python string or \<open>None\<close>. The first test is \<open>if not term\<close>, true for
  \<open>None\<close> and for the empty string. \<open>parts[0]\<close> is read only where \<open>parts\<close> has
  an element.
\<close>

definition empty_key_msg :: string where
  "empty_key_msg = ''Error - The key can'' @ [CHR 0x27] @ ''t be an empty string or null''"

definition no_scope_msg :: "string \<Rightarrow> string" where
  "no_scope_msg t =
     ''Error - The key doesn'' @ [CHR 0x27] @ ''t contain a scope and a''
     @ '' key delimited by a '' @ [CHR 0x27] @ ''.'' @ [CHR 0x27] @ '' (example: system.key).''
     @ '' Error in key: '' @ t"

definition parse_scope_key :: "string option \<Rightarrow> exn + (string \<times> string)" where
  "parse_scope_key term =
     (case term of
        None \<Rightarrow> Inl (AnsibleError empty_key_msg)
      | Some t \<Rightarrow>
          if t = [] then Inl (AnsibleError empty_key_msg)
          else
            (let parts = split (CHR ''.'') t in
             if length parts = 1 then Inr (''system'', hd parts)
             else if length parts < 2 then Inl (AnsibleError (no_scope_msg t))
             else Inr (hd parts, join ''.'' (tl parts))))"

subsection \<open>The outside world: environment, HTTP client, decoded JSON\<close>

text \<open>A decoded JSON document, as \<open>response.json()\<close> returns it.\<close>

datatype json =
    JNull
  | JBool bool
  | JNum int
  | JStr string
  | JArr "json list"
  | JObj "(string \<times> json) list"

text \<open>
  \<open>data[k]\<close> with a string key: on a dict the stored value, or \<open>KeyError\<close> when the key
  is missing; on anything else the interpreter raises \<open>TypeError\<close>. A dict is the list
  of its entries, read with \<open>map_of\<close>.
\<close>

fun getitem :: "json \<Rightarrow> string \<Rightarrow> exn + json" where
  "getitem (JObj kvs) k = (case map_of kvs k of None \<Rightarrow> Inl (KeyError k) | Some v \<Rightarrow> Inr v)"
| "getitem _ k = Inl TypeError"

text \<open>
  The call \<open>requests.get(url, headers=headers, verify=ssl_verify)\<close>. \<open>headers\<close> is the
  dict built by \<open>run\<close>, which holds one entry.
\<close>

record request =
  url :: string
  headers :: "(string \<times> pyval) list"
  verify :: pyval

text \<open>
  A response, as far as \<open>run\<close> looks at it: what \<open>raise_for_status()\<close> raises, if
  anything, and what \<open>json()\<close> returns or raises.
\<close>

record response =
  raise_for_status :: "exn option"
  json_body :: "exn + json"

text \<open>
  The world \<open>run\<close> executes in: whether the import of \<open>requests\<close> succeeded,
  \<open>os.environ\<close>, and the HTTP client. The answer of the client may depend on the number
  of requests made before, so that a server may answer the same request differently
  over time; \<open>Inl\<close> is an exception raised by \<open>requests.get\<close> itself.
\<close>

record world =
  HAS_REQUESTS :: bool
  environ :: "string \<rightharpoonup> string"
  requests_get :: "nat \<Rightarrow> request \<Rightarrow> exn + response"

text \<open>
  What \<open>run\<close> changes outside itself: the requests sent so far, in order, and whether
  \<open>urllib3.disable_warnings()\<close> has been called.
\<close>

record effects =
  sent :: "request list"
  warnings_disabled :: bool

type_synonym kwargs = "string \<rightharpoonup> pyval"

definition kwargs_get :: "kwargs \<Rightarrow> string \<Rightarrow> pyval \<Rightarrow> pyval" where
  "kwargs_get kw k d = (case kw k of None \<Rightarrow> d | Some v \<Rightarrow> v)"

definition environ_get :: "world \<Rightarrow> string \<Rightarrow> pyval" where
  "environ_get w k = (case environ w k of None \<Rightarrow> PNone | Some s \<Rightarrow> PStr s)"

subsection \<open>\<open>LookupModule.run\<close>\<close>

text \<open>Lines 123 to 130: the base URL.\<close>

definition get_api_url :: "kwargs \<Rightarrow> pyval" where
  "get_api_url kw =
     (let api_url = kwargs_get kw ''api_url'' PNone in
      if \<not> truthy api_url then
        (let hostname = kwargs_get kw ''hostname'' (PStr ''localhost'');
             port = kwargs_get kw ''port'' PNone in
         if truthy port
         then PStr (''https://'' @ format hostname @ '':'' @ format port @ ''/api'')
         else PStr (''https://'' @ format hostname @ ''/api''))
      else api_url)"

text \<open>Lines 140 to 144 and 149 to 151: the token and the API key.\<close>

definition get_auth_token :: "world \<Rightarrow> kwargs \<Rightarrow> pyval" where
  "get_auth_token w kw =
     (let auth_token = kwargs_get kw ''auth_token'' PNone;
          auth_token = (if \<not> truthy auth_token
                        then environ_get w ''ST2_ACTION_AUTH_TOKEN'' else auth_token);
          auth_token = (if \<not> truthy auth_token
                        then environ_get w ''ST2_AUTH_TOKEN'' else auth_token)
      in auth_token)"

definition get_api_key :: "world \<Rightarrow> kwargs \<Rightarrow> pyval" where
  "get_api_key w kw =
     (let api_key = kwargs_get kw ''api_key'' PNone;
          api_key = (if \<not> truthy api_key then environ_get w ''ST2_API_KEY'' else api_key)
      in api_key)"

definition no_auth_msg :: string where
  "no_auth_msg =
     ''Error no auth information provided. You must specify''
     @ '' either auth_token or api_key parameters. Or, set one''
     @ '' of the following environment variables: ST2_AUTH_TOKEN,''
     @ '' ST2_ACTION_AUTH_TOKEN, or ST2_API_KEY''"

text \<open>Lines 156 to 166: the headers, or the error when there is no credential.\<close>

definition make_headers :: "pyval \<Rightarrow> pyval \<Rightarrow> exn + (string \<times> pyval) list" where
  "make_headers auth_token api_key =
     (if truthy auth_token then Inr [(''X-Auth-Token'', auth_token)]
      else if truthy api_key then Inr [(''St2-Api-Key'', api_key)]
      else Inl (AnsibleError no_auth_msg))"

text \<open>Lines 172 to 177: the URL of one key.\<close>

definition make_url :: "pyval \<Rightarrow> string \<Rightarrow> string \<Rightarrow> pyval \<Rightarrow> pyval \<Rightarrow> string" where
  "make_url api_url key scope decrypt user =
     (let url = format api_url @ ''/v1/keys/'' @ key @ ''?scope='' @ scope;
          url = (if truthy decrypt then url @ ''&decrypt=true'' else url);
          url = (if truthy user then url @ ''&user='' @ format user else url)
      in url)"

text \<open>
  The body of the \<open>for\<close> loop, lines 123 to 185, for one term: the effects after it, and
  the value it appends to \<open>values\<close> or the exception it raises.
\<close>

definition body :: "world \<Rightarrow> kwargs \<Rightarrow> string option \<Rightarrow> effects \<Rightarrow> effects \<times> (exn + json)" where
  "body w kw term s =
     (let api_url = get_api_url kw;
          ssl_verify = kwargs_get kw ''ssl_verify'' (PBool True);
          s = (if \<not> truthy ssl_verify then s\<lparr>warnings_disabled := True\<rparr> else s);
          auth_token = get_auth_token w kw;
          api_key = get_api_key w kw;
          decrypt = kwargs_get kw ''decrypt'' (PBool False);
          user = kwargs_get kw ''user'' PNone
      in case make_headers auth_token api_key of
           Inl e \<Rightarrow> (s, Inl e)
         | Inr hdrs \<Rightarrow>
        (case parse_scope_key term of
           Inl e \<Rightarrow> (s, Inl e)
         | Inr (scope, key) \<Rightarrow>
        (let req = \<lparr>url = make_url api_url key scope decrypt user,
                    headers = hdrs, verify = ssl_verify\<rparr>;
             n = length (sent s);
             s = s\<lparr>sent := sent s @ [req]\<rparr>
         in case requests_get w n req of
              Inl e \<Rightarrow> (s, Inl e)
            | Inr resp \<Rightarrow>
           (case raise_for_status resp of
              Some e \<Rightarrow> (s, Inl e)
            | None \<Rightarrow>
           (case json_body resp of
              Inl e \<Rightarrow> (s, Inl e)
            | Inr data \<Rightarrow>
           (case getitem data ''value'' of
              Inl e \<Rightarrow> (s, Inl e)
            | Inr v \<Rightarrow> (s, Inr v)))))))"

text \<open>
  The \<open>for\<close> loop inside \<open>try\<close>, lines 121 to 188: any exception of the body ends the
  loop and is raised again as the \<open>AnsibleError\<close> naming the current term; \<open>values\<close>
  is returned only when the loop runs to its end.
\<close>

fun loop :: "world \<Rightarrow> kwargs \<Rightarrow> string option list \<Rightarrow> effects \<Rightarrow> json list
               \<Rightarrow> effects \<times> (exn + json list)" where
  "loop w kw [] s values = (s, Inr values)"
| "loop w kw (term # terms) s values =
     (case body w kw term s of
        (s', Inl e) \<Rightarrow> (s', Inl (Locating term e))
      | (s', Inr v) \<Rightarrow> loop w kw terms s' (values @ [v]))"

definition requests_missing_msg :: string where
  "requests_missing_msg =
     [CHR 0x22] @ ''requests'' @ [CHR 0x22] @ '' module is required for st2kv lookup. see ''
     @ ''http://docs.python-requests.org/en/master/user/install/''"

definition run :: "world \<Rightarrow> string option list \<Rightarrow> kwargs \<Rightarrow> effects \<Rightarrow> effects \<times> (exn + json list)" where
  "run w terms kw s =
     (if \<not> HAS_REQUESTS w then (s, Inl (AnsibleError requests_missing_msg))
      else loop w kw terms s [])"

subsection \<open>Auxiliary notions for the properties\<close>

text \<open>
  The request that the loop body builds for a term (lines 123 to 177), or the exception
  it raises before any request is made; and the value it reads from what
  \<open>requests.get\<close> gives back (lines 180 to 185). Lemmas \<open>body_not_sent\<close> and
  \<open>body_sent\<close> below relate them to \<open>body\<close>.
\<close>

definition request_for :: "world \<Rightarrow> kwargs \<Rightarrow> string option \<Rightarrow> exn + request" where
  "request_for w kw term =
     (case make_headers (get_auth_token w kw) (get_api_key w kw) of
        Inl e \<Rightarrow> Inl e
      | Inr hdrs \<Rightarrow>
     (case parse_scope_key term of
        Inl e \<Rightarrow> Inl e
      | Inr (scope, key) \<Rightarrow>
          Inr \<lparr>url = make_url (get_api_url kw) key scope
                       (kwargs_get kw ''decrypt'' (PBool False)) (kwargs_get kw ''user'' PNone),
               headers = hdrs,
               verify = kwargs_get kw ''ssl_verify'' (PBool True)\<rparr>))"

definition read_value :: "exn + response \<Rightarrow> exn + json" where
  "read_value r =
     (case r of
        Inl e \<Rightarrow> Inl e
      | Inr resp \<Rightarrow>
     (case raise_for_status resp of
        Some e \<Rightarrow> Inl e
      | None \<Rightarrow>
     (case json_body resp of
        Inl e \<Rightarrow> Inl e
      | Inr data \<Rightarrow> getitem data ''value'')))"

text \<open>The first value of a list that Python takes as true, if there is one.\<close>

definition first_nonempty :: "pyval list \<Rightarrow> pyval option" where
  "first_nonempty vs = find truthy vs"

text \<open>
  The headers as the specification words them, to be compared with what \<open>run\<close>
  computes: the token is the first non-empty one of the \<open>auth_token\<close> argument,
  \<open>ST2_ACTION_AUTH_TOKEN\<close> and \<open>ST2_AUTH_TOKEN\<close>; the API key is the first
  non-empty one of the \<open>api_key\<close> argument and \<open>ST2_API_KEY\<close>. With a token the
  header is \<open>X-Auth-Token\<close>, whether or not there is an API key; else with an API
  key it is \<open>St2-Api-Key\<close>; else there are no headers.
\<close>

definition spec_headers :: "world \<Rightarrow> kwargs \<Rightarrow> (string \<times> pyval) list option" where
  "spec_headers w kw =
     (case first_nonempty [kwargs_get kw ''auth_token'' PNone,
                           environ_get w ''ST2_ACTION_AUTH_TOKEN'',
                           environ_get w ''ST2_AUTH_TOKEN''] of
        Some token \<Rightarrow> Some [(''X-Auth-Token'', token)]
      | None \<Rightarrow>
          (case first_nonempty [kwargs_get kw ''api_key'' PNone,
                                environ_get w ''ST2_API_KEY''] of
             Some k \<Rightarrow> Some [(''St2-Api-Key'', k)]
           | None \<Rightarrow> None))"

subsection \<open>Example worlds\<close>

text \<open>
  Concrete inputs on which the theorems below are instantiated: no effects so far, no
  keyword arguments, a world without credentials whose client refuses every connection,
  and a world with an API key in the environment whose server answers the first request
  with a value, the second with status 404 and every later one with a body that has no
  \<open>value\<close> field; then keyword arguments with a token and an API key, keyword arguments
  with a host and a port, a world with a token in the environment whose server answers
  the \<open>n\<close>-th request with the value \<open>n\<close>, and the effects after two earlier requests;
  and keyword arguments with an API key only.
\<close>

definition empty_effects :: effects where
  "empty_effects = \<lparr>sent = [], warnings_disabled = False\<rparr>"

definition no_kwargs :: kwargs where
  "no_kwargs = Map.empty"

definition refusing_get :: "nat \<Rightarrow> request \<Rightarrow> exn + response" where
  "refusing_get n req = Inl (RequestException ''connection refused'')"

definition bare_world :: world where
  "bare_world = \<lparr>HAS_REQUESTS = True, environ = Map.empty, requests_get = refusing_get\<rparr>"

definition example_get :: "nat \<Rightarrow> request \<Rightarrow> exn + response" where
  "example_get n req =
     (if n = 0 then
        Inr \<lparr>raise_for_status = None,
             json_body = Inr (JObj [(''name'', JStr ''a''), (''value'', JStr ''one'')])\<rparr>
      else if n = 1 then
        Inr \<lparr>raise_for_status = Some (HTTPError ''404 Client Error: Not Found''),
             json_body = Inr (JObj [(''faultstring'', JStr ''not found'')])\<rparr>
      else
        Inr \<lparr>raise_for_status = None,
             json_body = Inr (JObj [(''name'', JStr ''c'')])\<rparr>)"

definition example_world :: world where
  "example_world =
     \<lparr>HAS_REQUESTS = True,
      environ = [''ST2_API_KEY'' \<mapsto> ''key123''],
      requests_get = example_get\<rparr>"

definition example_kwargs :: kwargs where
  "example_kwargs =
     [''api_url'' \<mapsto> PStr ''https://h/api'', ''decrypt'' \<mapsto> PBool True,
      ''user'' \<mapsto> PStr ''dave'']"

definition key_kwargs :: kwargs where
  "key_kwargs = [''api_key'' \<mapsto> PStr ''xyz123'']"

definition token_kwargs :: kwargs where
  "token_kwargs = [''auth_token'' \<mapsto> PStr ''tok456'', ''api_key'' \<mapsto> PStr ''xyz123'']"

definition host_kwargs :: kwargs where
  "host_kwargs = [''hostname'' \<mapsto> PStr ''st2.example'', ''port'' \<mapsto> PStr ''9101'']"

definition always_get :: "nat \<Rightarrow> request \<Rightarrow> exn + response" where
  "always_get n req =
     Inr \<lparr>raise_for_status = None,
          json_body = Inr (JObj [(''value'', JNum (int n))])\<rparr>"

definition always_world :: world where
  "always_world =
     \<lparr>HAS_REQUESTS = True,
      environ = [''ST2_AUTH_TOKEN'' \<mapsto> ''tok789''],
      requests_get = always_get\<rparr>"

definition third_effects :: effects where
  "third_effects =
     \<lparr>sent = [\<lparr>url = ''https://localhost/api/v1/keys/a?scope=system'',
               headers = [(''X-Auth-Token'', PStr ''tok456'')], verify = PBool True\<rparr>,
              \<lparr>url = ''https://localhost/api/v1/keys/b?scope=system'',
               headers = [(''X-Auth-Token'', PStr ''tok456'')], verify = PBool True\<rparr>],
      warnings_disabled = False\<rparr>"

section \<open>Properties\<close>

subsection \<open>Splitting and joining\<close>

lemma split_not_Nil: "split sep s \<noteq> []"
  by (induction s) (auto split: list.splits)

lemma join_split: "join [sep] (split sep s) = s"
proof (induction s)
  case Nil
  show ?case by simp
next
  case (Cons c cs)
  obtain p ps where sp: "split sep cs = p # ps"
    using split_not_Nil [of sep cs] by (cases "split sep cs") auto
  show ?case
  proof (cases "c = sep")
    case True
    with Cons sp show ?thesis by simp
  next
    case False
    with Cons sp show ?thesis by (cases ps) auto
  qed
qed

lemma hd_split: "hd (split sep s) = takeWhile (\<lambda>c. c \<noteq> sep) s"
  by (induction s) (auto split: list.splits simp: split_not_Nil)

lemma tl_split_absent: "sep \<notin> set s \<Longrightarrow> split sep s = [s]"
  by (induction s) auto

lemma tl_split_present:
  "sep \<in> set s \<Longrightarrow> tl (split sep s) = split sep (tl (dropWhile (\<lambda>c. c \<noteq> sep) s))"
  by (induction s) (auto split: list.splits simp: split_not_Nil)

lemma length_split_present: "sep \<in> set s \<Longrightarrow> 2 \<le> length (split sep s)"
  using split_not_Nil [of sep "tl (dropWhile (\<lambda>c. c \<noteq> sep) s)"] tl_split_present [of sep s] split_not_Nil [of sep s]
  by (cases "split sep s") (auto simp: Suc_le_eq)

subsection \<open>The loop body and the loop\<close>

lemma body_not_sent:
  "request_for w kw term = Inl e \<Longrightarrow>
     sent (fst (body w kw term s)) = sent s \<and> snd (body w kw term s) = Inl e"
  by (auto simp: body_def request_for_def Let_def split: sum.splits prod.splits)

lemma body_sent:
  "request_for w kw term = Inr req \<Longrightarrow>
     sent (fst (body w kw term s)) = sent s @ [req] \<and>
     snd (body w kw term s) = read_value (requests_get w (length (sent s)) req)"
  by (auto simp: body_def request_for_def read_value_def Let_def
           split: sum.splits prod.splits option.splits)

lemma loop_Cons_fail:
  "snd (body w kw term s) = Inl e \<Longrightarrow>
     loop w kw (term # terms) s vs = (fst (body w kw term s), Inl (Locating term e))"
  by (cases "body w kw term s") simp

lemma loop_Cons_ok:
  "snd (body w kw term s) = Inr v \<Longrightarrow>
     loop w kw (term # terms) s vs = loop w kw terms (fst (body w kw term s)) (vs @ [v])"
  by (cases "body w kw term s") simp

declare loop.simps(2) [simp del]

lemma loop_sent_length:
  "length (sent s) \<le> length (sent (fst (loop w kw terms s vs)))"
proof (induction terms arbitrary: s vs)
  case Nil
  show ?case by simp
next
  case (Cons t ts)
  have b: "length (sent s) \<le> length (sent (fst (body w kw t s)))"
    by (cases "request_for w kw t") (simp_all add: body_not_sent body_sent)
  show ?case
  proof (cases "snd (body w kw t s)")
    case (Inl e)
    then show ?thesis using b by (simp add: loop_Cons_fail)
  next
    case (Inr v)
    then show ?thesis using b Cons.IH [of "fst (body w kw t s)" "vs @ [v]"]
      by (simp add: loop_Cons_ok)
  qed
qed

lemma loop_sent_prefix:
  "take (length (sent s)) (sent (fst (loop w kw terms s vs))) = sent s"
proof (induction terms arbitrary: s vs)
  case Nil
  show ?case by simp
next
  case (Cons t ts)
  have b: "take (length (sent s)) (sent (fst (body w kw t s))) = sent s"
    by (cases "request_for w kw t") (simp_all add: body_not_sent body_sent)
  show ?case
  proof (cases "snd (body w kw t s)")
    case (Inl e)
    then show ?thesis using b by (simp add: loop_Cons_fail)
  next
    case (Inr v)
    let ?s1 = "fst (body w kw t s)"
    have le: "length (sent s) \<le> length (sent ?s1)"
      by (cases "request_for w kw t") (simp_all add: body_not_sent body_sent)
    have "take (length (sent s)) (sent (fst (loop w kw ts ?s1 (vs @ [v]))))
          = take (length (sent s)) (take (length (sent ?s1)) (sent (fst (loop w kw ts ?s1 (vs @ [v])))))"
      using le by (simp add: min_def)
    also have "\<dots> = take (length (sent s)) (sent ?s1)"
      by (simp only: Cons.IH)
    finally show ?thesis using b Inr by (simp add: loop_Cons_ok)
  qed
qed

text \<open>The i-th request that the loop sends is the request for the i-th term.\<close>

lemma loop_sent_nth:
  "length (sent s) + i < length (sent (fst (loop w kw terms s vs))) \<Longrightarrow>
     i < length terms \<and>
     request_for w kw (terms ! i) = Inr (sent (fst (loop w kw terms s vs)) ! (length (sent s) + i))"
proof (induction terms arbitrary: s vs i)
  case Nil
  then show ?case by simp
next
  case (Cons t ts)
  let ?s1 = "fst (body w kw t s)"
  show ?case
  proof (cases "request_for w kw t")
    case (Inl e)
    then have "loop w kw (t # ts) s vs = (?s1, Inl (Locating t e))" "sent ?s1 = sent s"
      by (simp_all add: body_not_sent loop_Cons_fail)
    with Cons.prems show ?thesis by simp
  next
    case (Inr req)
    then have s1: "sent ?s1 = sent s @ [req]"
      and r: "snd (body w kw t s) = read_value (requests_get w (length (sent s)) req)"
      by (simp_all add: body_sent)
    show ?thesis
    proof (cases "snd (body w kw t s)")
      case (Inl e)
      then have "loop w kw (t # ts) s vs = (?s1, Inl (Locating t e))"
        by (simp add: loop_Cons_fail)
      with Cons.prems s1 Inr show ?thesis by simp
    next
      case (Inr v)
      then have eq: "loop w kw (t # ts) s vs = loop w kw ts ?s1 (vs @ [v])"
        by (simp add: loop_Cons_ok)
      show ?thesis
      proof (cases i)
        case 0
        have "take (length (sent ?s1)) (sent (fst (loop w kw ts ?s1 (vs @ [v])))) = sent ?s1"
          by (rule loop_sent_prefix)
        then have "sent (fst (loop w kw ts ?s1 (vs @ [v]))) ! length (sent s) = sent ?s1 ! length (sent s)"
          using s1 by (metis length_append_singleton lessI nth_take)
        with 0 eq s1 \<open>request_for w kw t = Inr req\<close> show ?thesis by simp
      next
        case (Suc j)
        have "length (sent ?s1) + j < length (sent (fst (loop w kw ts ?s1 (vs @ [v]))))"
          using Cons.prems eq s1 Suc by simp
        from Cons.IH [OF this] show ?thesis using Suc eq s1 by simp
      qed
    qed
  qed
qed

text \<open>A request whose answer cannot be read ends the loop, with the error of that term.\<close>

lemma loop_fails_at:
  "length (sent s) + i < length (sent (fst (loop w kw terms s vs))) \<Longrightarrow>
   read_value (requests_get w (length (sent s) + i)
       (sent (fst (loop w kw terms s vs)) ! (length (sent s) + i))) = Inl e \<Longrightarrow>
     snd (loop w kw terms s vs) = Inl (Locating (terms ! i) e) \<and>
     length (sent (fst (loop w kw terms s vs))) = length (sent s) + i + 1"
proof (induction terms arbitrary: s vs i)
  case Nil
  then show ?case by simp
next
  case (Cons t ts)
  let ?s1 = "fst (body w kw t s)"
  show ?case
  proof (cases "request_for w kw t")
    case (Inl e')
    then have "loop w kw (t # ts) s vs = (?s1, Inl (Locating t e'))" "sent ?s1 = sent s"
      by (simp_all add: body_not_sent loop_Cons_fail)
    with Cons.prems show ?thesis by simp
  next
    case (Inr req)
    then have s1: "sent ?s1 = sent s @ [req]"
      and r: "snd (body w kw t s) = read_value (requests_get w (length (sent s)) req)"
      by (simp_all add: body_sent)
    have first: "sent (fst (loop w kw (t # ts) s vs)) ! length (sent s) = req"
      if "length (sent s) < length (sent (fst (loop w kw (t # ts) s vs)))"
      using loop_sent_nth [of s 0 w kw "t # ts" vs] that Inr by simp
    show ?thesis
    proof (cases "snd (body w kw t s)")
      case (Inl e')
      then have eq: "loop w kw (t # ts) s vs = (?s1, Inl (Locating t e'))"
        by (simp add: loop_Cons_fail)
      with Cons.prems(1) s1 have i0: "i = 0" by simp
      with Cons.prems(2) eq s1 r Inl show ?thesis by simp
    next
      case (Inr v)
      then have eq: "loop w kw (t # ts) s vs = loop w kw ts ?s1 (vs @ [v])"
        by (simp add: loop_Cons_ok)
      show ?thesis
      proof (cases i)
        case 0
        with Cons.prems first r Inr show ?thesis by simp
      next
        case (Suc j)
        have a: "length (sent ?s1) + j < length (sent (fst (loop w kw ts ?s1 (vs @ [v]))))"
          using Cons.prems(1) eq s1 Suc by simp
        have b: "read_value (requests_get w (length (sent ?s1) + j)
                   (sent (fst (loop w kw ts ?s1 (vs @ [v]))) ! (length (sent ?s1) + j))) = Inl e"
          using Cons.prems(2) eq s1 Suc by simp
        from Cons.IH [OF a b] show ?thesis using Suc eq s1 by simp
      qed
    qed
  qed
qed

lemma loop_all_succeed:
  "length vals = length terms \<Longrightarrow>
   length reqs = length terms \<Longrightarrow>
   (\<forall>i<length terms. request_for w kw (terms ! i) = Inr (reqs ! i) \<and>
        read_value (requests_get w (length (sent s) + i) (reqs ! i)) = Inr (vals ! i)) \<Longrightarrow>
     snd (loop w kw terms s vs) = Inr (vs @ vals) \<and>
     sent (fst (loop w kw terms s vs)) = sent s @ reqs"
proof (induction terms arbitrary: s vs vals reqs)
  case Nil
  then show ?case by simp
next
  case (Cons t ts)
  obtain v vals' where vals: "vals = v # vals'" using Cons.prems(1) by (cases vals) auto
  obtain q reqs' where reqs: "reqs = q # reqs'" using Cons.prems(2) by (cases reqs) auto
  let ?s1 = "fst (body w kw t s)"
  have h0: "request_for w kw t = Inr q"
    "read_value (requests_get w (length (sent s)) q) = Inr v"
    using Cons.prems(3) vals reqs by auto
  then have s1: "sent ?s1 = sent s @ [q]" and r: "snd (body w kw t s) = Inr v"
    by (simp_all add: body_sent)
  have eq: "loop w kw (t # ts) s vs = loop w kw ts ?s1 (vs @ [v])"
    using r by (simp add: loop_Cons_ok)
  have "\<forall>i<length ts. request_for w kw (ts ! i) = Inr (reqs' ! i) \<and>
          read_value (requests_get w (length (sent ?s1) + i) (reqs' ! i)) = Inr (vals' ! i)"
  proof (intro allI impI)
    fix i assume "i < length ts"
    then have "Suc i < length (t # ts)" by simp
    from Cons.prems(3) [rule_format, OF this] show
      "request_for w kw (ts ! i) = Inr (reqs' ! i) \<and>
       read_value (requests_get w (length (sent ?s1) + i) (reqs' ! i)) = Inr (vals' ! i)"
      using vals reqs s1 by simp
  qed
  from Cons.IH [OF _ _ this, of "vs @ [v]"] Cons.prems(1,2) vals reqs
  show ?case using eq s1 by simp
qed

lemmas run_simps =
  run_def body_def kwargs_get_def environ_get_def get_api_url_def get_auth_token_def
  get_api_key_def make_headers_def make_url_def parse_scope_key_def Let_def loop.simps

lemma run_sent_nth:
  assumes "HAS_REQUESTS w"
    and "length (sent s) + i < length (sent (fst (run w terms kw s)))"
  shows "i < length terms"
    and "request_for w kw (terms ! i) = Inr (sent (fst (run w terms kw s)) ! (length (sent s) + i))"
  using assms loop_sent_nth [of s i w kw terms "[]"] by (simp_all add: run_def)

lemma example1:
  "run example_world [Some ''user.mykey''] example_kwargs empty_effects =
     (\<lparr>sent = [\<lparr>url = ''https://h/api/v1/keys/mykey?scope=user&decrypt=true&user=dave'',
                headers = [(''St2-Api-Key'', PStr ''key123'')], verify = PBool True\<rparr>],
       warnings_disabled = False\<rparr>, Inr [JStr ''one''])"
  by (simp add: run_simps example_world_def example_kwargs_def empty_effects_def example_get_def)

lemma request_for_url:
  "request_for w kw term = Inr req \<Longrightarrow> parse_scope_key term = Inr (scope, key) \<Longrightarrow>
     url req = make_url (get_api_url kw) key scope
                 (kwargs_get kw ''decrypt'' (PBool False)) (kwargs_get kw ''user'' PNone)"
  by (auto simp: request_for_def split: sum.splits)

lemma request_for_headers:
  "request_for w kw term = Inr req \<Longrightarrow>
     make_headers (get_auth_token w kw) (get_api_key w kw) = Inr (headers req)"
  by (auto simp: request_for_def split: sum.splits)

lemma request_for_parsed:
  "request_for w kw term = Inr req \<Longrightarrow> \<exists>scope key. parse_scope_key term = Inr (scope, key)"
  by (auto simp: request_for_def split: sum.splits)

lemma make_headers_spec:
  "make_headers (get_auth_token w kw) (get_api_key w kw) =
     (case spec_headers w kw of
        Some hdrs \<Rightarrow> Inr hdrs
      | None \<Rightarrow> Inl (AnsibleError no_auth_msg))"
  by (simp add: make_headers_def get_auth_token_def get_api_key_def spec_headers_def
        first_nonempty_def Let_def)

lemma request_for_spec_headers:
  "parse_scope_key term = Inr (scope, key) \<Longrightarrow> spec_headers w kw = Some hdrs \<Longrightarrow>
     \<exists>req. request_for w kw term = Inr req \<and> headers req = hdrs"
  by (simp add: request_for_def make_headers_spec)

lemma request_for_no_headers:
  "spec_headers w kw = None \<Longrightarrow> request_for w kw term = Inl (AnsibleError no_auth_msg)"
  by (simp add: request_for_def make_headers_spec)

lemma loop_first_sent:
  assumes "request_for w kw t = Inr req"
  shows "length (sent s) < length (sent (fst (loop w kw (t # ts) s vs)))
       \<and> sent (fst (loop w kw (t # ts) s vs)) ! length (sent s) = req"
proof -
  let ?s1 = "fst (body w kw t s)"
  have s1: "sent ?s1 = sent s @ [req]" using assms by (simp add: body_sent)
  show ?thesis
  proof (cases "snd (body w kw t s)")
    case (Inl e)
    then show ?thesis using s1 by (simp add: loop_Cons_fail)
  next
    case (Inr v)
    then have eq: "loop w kw (t # ts) s vs = loop w kw ts ?s1 (vs @ [v])"
      by (simp add: loop_Cons_ok)
    have le: "length (sent ?s1) \<le> length (sent (fst (loop w kw ts ?s1 (vs @ [v]))))"
      by (rule loop_sent_length)
    have "take (length (sent ?s1)) (sent (fst (loop w kw ts ?s1 (vs @ [v])))) = sent ?s1"
      by (rule loop_sent_prefix)
    then have "sent (fst (loop w kw ts ?s1 (vs @ [v]))) ! length (sent s) = sent ?s1 ! length (sent s)"
      using s1 by (metis length_append_singleton lessI nth_take)
    with le s1 eq show ?thesis by simp
  qed
qed

lemma loop_nothing_sent:
  "spec_headers w kw = None \<Longrightarrow> sent (fst (loop w kw terms s vs)) = sent s"
proof (cases terms)
  case Nil
  then show ?thesis by simp
next
  case (Cons t ts)
  assume "spec_headers w kw = None"
  then have "request_for w kw t = Inl (AnsibleError no_auth_msg)"
    by (rule request_for_no_headers)
  then have "sent (fst (body w kw t s)) = sent s"
    "snd (body w kw t s) = Inl (AnsibleError no_auth_msg)"
    by (simp_all add: body_not_sent)
  then show ?thesis using Cons by (simp add: loop_Cons_fail)
qed

lemma format_get_api_url:
  "format (get_api_url kw) =
     (if truthy (kwargs_get kw ''api_url'' PNone) then format (kwargs_get kw ''api_url'' PNone)
      else if truthy (kwargs_get kw ''port'' PNone)
        then ''https://'' @ (case kw ''hostname'' of None \<Rightarrow> ''localhost'' | Some h \<Rightarrow> format h)
             @ '':'' @ format (kwargs_get kw ''port'' PNone) @ ''/api''
        else ''https://'' @ (case kw ''hostname'' of None \<Rightarrow> ''localhost'' | Some h \<Rightarrow> format h)
             @ ''/api'')"
  by (simp add: get_api_url_def kwargs_get_def Let_def split: option.splits)

lemma example2:
  "run example_world [Some ''system.a'', Some ''system.b'', Some ''system.c''] token_kwargs empty_effects
     = (\<lparr>sent = [\<lparr>url = ''https://localhost/api/v1/keys/a?scope=system'',
                  headers = [(''X-Auth-Token'', PStr ''tok456'')], verify = PBool True\<rparr>,
                 \<lparr>url = ''https://localhost/api/v1/keys/b?scope=system'',
                  headers = [(''X-Auth-Token'', PStr ''tok456'')], verify = PBool True\<rparr>],
         warnings_disabled = False\<rparr>,
        Inl (Locating (Some ''system.b'') (HTTPError ''404 Client Error: Not Found'')))"
  by (simp add: run_simps example_world_def token_kwargs_def empty_effects_def example_get_def)

lemma example3:
  "run example_world [Some ''system.a''] host_kwargs empty_effects
     = (\<lparr>sent = [\<lparr>url = ''https://st2.example:9101/api/v1/keys/a?scope=system'',
                  headers = [(''St2-Api-Key'', PStr ''key123'')], verify = PBool True\<rparr>],
         warnings_disabled = False\<rparr>, Inr [JStr ''one''])"
  by (simp add: run_simps example_world_def host_kwargs_def empty_effects_def example_get_def)

lemma example4:
  "run example_world [Some ''system.c'', Some ''system.d''] token_kwargs third_effects
     = (third_effects\<lparr>sent := sent third_effects @
           [\<lparr>url = ''https://localhost/api/v1/keys/c?scope=system'',
             headers = [(''X-Auth-Token'', PStr ''tok456'')], verify = PBool True\<rparr>]\<rparr>,
        Inl (Locating (Some ''system.c'') (KeyError ''value'')))"
  by (simp add: run_simps example_world_def token_kwargs_def third_effects_def example_get_def)

lemma example5:
  "run example_world [Some ''system.a''] key_kwargs empty_effects
     = (\<lparr>sent = [\<lparr>url = ''https://localhost/api/v1/keys/a?scope=system'',
                  headers = [(''St2-Api-Key'', PStr ''xyz123'')], verify = PBool True\<rparr>],
         warnings_disabled = False\<rparr>, Inr [JStr ''one''])"
  by (simp add: run_simps example_world_def key_kwargs_def empty_effects_def example_get_def)

subsection \<open>The claims\<close>

text \<open>
  C1. Whenever \<open>run\<close> sends its \<open>i\<close>-th request and the \<open>i\<close>-th term parses to
  \<open>(scope, key)\<close>, the URL of that request is the base URL followed by
  \<open>/v1/keys/{key}?scope={scope}\<close>, then \<open>&decrypt=true\<close> when \<open>decrypt\<close> is set,
  then \<open>&user={user}\<close> when \<open>user\<close> is set, in this order. An option is set when
  Python takes its value as true.
\<close>

theorem run_requested_url:
  assumes "HAS_REQUESTS w"
    and "length (sent s) + i < length (sent (fst (run w terms kw s)))"
    and "parse_scope_key (terms ! i) = Inr (scope, key)"
  shows "url (sent (fst (run w terms kw s)) ! (length (sent s) + i)) =
           format (get_api_url kw) @ ''/v1/keys/'' @ key @ ''?scope='' @ scope
           @ (if truthy (kwargs_get kw ''decrypt'' (PBool False)) then ''&decrypt=true'' else [])
           @ (if truthy (kwargs_get kw ''user'' PNone)
              then ''&user='' @ format (kwargs_get kw ''user'' PNone) else [])"
proof -
  have "request_for w kw (terms ! i) = Inr (sent (fst (run w terms kw s)) ! (length (sent s) + i))"
    using assms(1,2) by (rule run_sent_nth)
  then have "url (sent (fst (run w terms kw s)) ! (length (sent s) + i)) =
      make_url (get_api_url kw) key scope
        (kwargs_get kw ''decrypt'' (PBool False)) (kwargs_get kw ''user'' PNone)"
    using assms(3) by (rule request_for_url)
  then show ?thesis by (simp add: make_url_def Let_def)
qed

theorem run_requested_url_witness:
  "HAS_REQUESTS example_world \<and>
   length (sent empty_effects) + 0
     < length (sent (fst (run example_world [Some ''user.mykey''] example_kwargs empty_effects))) \<and>
   parse_scope_key ([Some ''user.mykey''] ! 0) = Inr (''user'', ''mykey'') \<and>
   url (sent (fst (run example_world [Some ''user.mykey''] example_kwargs empty_effects))
          ! (length (sent empty_effects) + 0))
     = ''https://h/api/v1/keys/mykey?scope=user&decrypt=true&user=dave''"
proof -
  have p: "parse_scope_key ([Some ''user.mykey''] ! 0) = Inr (''user'', ''mykey'')"
    by (simp add: parse_scope_key_def)
  have h: "HAS_REQUESTS example_world" by (simp add: example_world_def)
  have l: "length (sent empty_effects) + 0
     < length (sent (fst (run example_world [Some ''user.mykey''] example_kwargs empty_effects)))"
    by (simp add: example1) (simp add: empty_effects_def)
  from run_requested_url [OF h l p] h l p show ?thesis
    by (simp add: example_kwargs_def kwargs_get_def get_api_url_def)
qed

text \<open>
  C2. The credentials resolve by the fixed priority of \<open>spec_headers\<close>: the
  \<open>auth_token\<close> argument, then \<open>ST2_ACTION_AUTH_TOKEN\<close>, then \<open>ST2_AUTH_TOKEN\<close>,
  then the \<open>api_key\<close> argument, then \<open>ST2_API_KEY\<close>, the first non-empty one of
  each kind being taken. First, the headers that \<open>run\<close> computes are exactly these: one
  header \<open>X-Auth-Token\<close> with the token when a token resolves, also when an API key is
  available; otherwise one header \<open>St2-Api-Key\<close> with the key when an API key resolves;
  otherwise the error about missing credentials. Second, every request that \<open>run\<close>
  sends carries exactly these headers. Third, when a credential resolves and the first
  term parses, a request is sent for it, with these headers. Fourth, when no credential
  resolves, no request is sent.
\<close>

theorem run_request_headers:
  assumes "HAS_REQUESTS w"
  shows "make_headers (get_auth_token w kw) (get_api_key w kw) =
           (case spec_headers w kw of
              Some hdrs \<Rightarrow> Inr hdrs
            | None \<Rightarrow> Inl (AnsibleError no_auth_msg))
       \<and> (length (sent s) + i < length (sent (fst (run w terms kw s))) \<longrightarrow>
           spec_headers w kw
             = Some (headers (sent (fst (run w terms kw s)) ! (length (sent s) + i))))
       \<and> (terms \<noteq> [] \<and> parse_scope_key (hd terms) = Inr (scope, key)
           \<and> spec_headers w kw = Some hdrs \<longrightarrow>
           length (sent s) < length (sent (fst (run w terms kw s)))
           \<and> headers (sent (fst (run w terms kw s)) ! length (sent s)) = hdrs)
       \<and> (spec_headers w kw = None \<longrightarrow> sent (fst (run w terms kw s)) = sent s)"
proof (intro conjI impI)
  show "make_headers (get_auth_token w kw) (get_api_key w kw) =
           (case spec_headers w kw of
              Some hdrs \<Rightarrow> Inr hdrs
            | None \<Rightarrow> Inl (AnsibleError no_auth_msg))"
    by (rule make_headers_spec)
next
  assume "length (sent s) + i < length (sent (fst (run w terms kw s)))"
  with assms have "request_for w kw (terms ! i)
      = Inr (sent (fst (run w terms kw s)) ! (length (sent s) + i))"
    by (rule run_sent_nth)
  then have "make_headers (get_auth_token w kw) (get_api_key w kw)
             = Inr (headers (sent (fst (run w terms kw s)) ! (length (sent s) + i)))"
    by (rule request_for_headers)
  then show "spec_headers w kw
           = Some (headers (sent (fst (run w terms kw s)) ! (length (sent s) + i)))"
    by (simp add: make_headers_spec split: option.splits)
next
  assume a: "terms \<noteq> [] \<and> parse_scope_key (hd terms) = Inr (scope, key)
         \<and> spec_headers w kw = Some hdrs"
  then obtain t ts where terms: "terms = t # ts" by (cases terms) auto
  with a obtain req where req: "request_for w kw t = Inr req" "headers req = hdrs"
    using request_for_spec_headers [of t scope key w kw hdrs] by auto
  then have first: "length (sent s) < length (sent (fst (run w terms kw s)))
         \<and> headers (sent (fst (run w terms kw s)) ! length (sent s)) = hdrs"
    using loop_first_sent [of w kw t req s ts "[]"] assms terms by (simp add: run_def)
  from first show "length (sent s) < length (sent (fst (run w terms kw s)))" by simp
  from first show "headers (sent (fst (run w terms kw s)) ! length (sent s)) = hdrs" by simp
next
  assume "spec_headers w kw = None"
  then show "sent (fst (run w terms kw s)) = sent s"
    using assms by (simp add: run_def loop_nothing_sent)
qed

theorem run_request_headers_witness:
  "HAS_REQUESTS example_world
   \<and> spec_headers example_world token_kwargs = Some [(''X-Auth-Token'', PStr ''tok456'')]
   \<and> make_headers (get_auth_token example_world token_kwargs)
        (get_api_key example_world token_kwargs) = Inr [(''X-Auth-Token'', PStr ''tok456'')]
   \<and> [Some ''system.a'', Some ''system.b'', Some ''system.c''] \<noteq> []
   \<and> parse_scope_key (hd [Some ''system.a'', Some ''system.b'', Some ''system.c''])
       = Inr (''system'', ''a'')
   \<and> length (sent empty_effects)
       < length (sent (fst (run example_world
            [Some ''system.a'', Some ''system.b'', Some ''system.c''] token_kwargs empty_effects)))
   \<and> headers (sent (fst (run example_world
            [Some ''system.a'', Some ''system.b'', Some ''system.c''] token_kwargs empty_effects))
          ! length (sent empty_effects)) = [(''X-Auth-Token'', PStr ''tok456'')]
   \<and> length (sent empty_effects) + 1
       < length (sent (fst (run example_world
            [Some ''system.a'', Some ''system.b'', Some ''system.c''] token_kwargs empty_effects)))
   \<and> spec_headers example_world token_kwargs
       = Some (headers (sent (fst (run example_world
            [Some ''system.a'', Some ''system.b'', Some ''system.c''] token_kwargs empty_effects))
          ! (length (sent empty_effects) + 1)))
   \<and> spec_headers example_world key_kwargs = Some [(''St2-Api-Key'', PStr ''xyz123'')]
   \<and> make_headers (get_auth_token example_world key_kwargs)
        (get_api_key example_world key_kwargs) = Inr [(''St2-Api-Key'', PStr ''xyz123'')]
   \<and> [Some ''system.a''] \<noteq> []
   \<and> parse_scope_key (hd [Some ''system.a'']) = Inr (''system'', ''a'')
   \<and> length (sent empty_effects)
       < length (sent (fst (run example_world [Some ''system.a''] key_kwargs empty_effects)))
   \<and> headers (sent (fst (run example_world [Some ''system.a''] key_kwargs empty_effects))
          ! length (sent empty_effects)) = [(''St2-Api-Key'', PStr ''xyz123'')]
   \<and> HAS_REQUESTS bare_world
   \<and> spec_headers bare_world no_kwargs = None
   \<and> make_headers (get_auth_token bare_world no_kwargs) (get_api_key bare_world no_kwargs)
       = Inl (AnsibleError no_auth_msg)
   \<and> sent (fst (run bare_world [Some ''system.a''] no_kwargs empty_effects))
       = sent empty_effects"
proof -
  let ?ts = "[Some ''system.a'', Some ''system.b'', Some ''system.c'']"
  have h: "HAS_REQUESTS example_world" by (simp add: example_world_def)
  have hb: "HAS_REQUESTS bare_world" by (simp add: bare_world_def)
  have st: "spec_headers example_world token_kwargs = Some [(''X-Auth-Token'', PStr ''tok456'')]"
    by (simp add: spec_headers_def first_nonempty_def kwargs_get_def token_kwargs_def)
  have sk: "spec_headers example_world key_kwargs = Some [(''St2-Api-Key'', PStr ''xyz123'')]"
    by (simp add: spec_headers_def first_nonempty_def kwargs_get_def environ_get_def
          key_kwargs_def example_world_def)
  have sn: "spec_headers bare_world no_kwargs = None"
    by (simp add: spec_headers_def first_nonempty_def kwargs_get_def environ_get_def
          no_kwargs_def bare_world_def)
  have n3: "?ts \<noteq> []" by simp
  have n1: "[Some ''system.a''] \<noteq> []" by simp
  have p3: "parse_scope_key (hd ?ts) = Inr (''system'', ''a'')"
    by (simp add: parse_scope_key_def)
  have p1: "parse_scope_key (hd [Some ''system.a'']) = Inr (''system'', ''a'')"
    by (simp add: parse_scope_key_def)
  have l: "length (sent empty_effects) + 1
       < length (sent (fst (run example_world ?ts token_kwargs empty_effects)))"
    by (simp add: example2) (simp add: empty_effects_def)
  note t = run_request_headers [OF h, of token_kwargs empty_effects 1 ?ts
             "''system''" "''a''" "[(''X-Auth-Token'', PStr ''tok456'')]"]
  note k = run_request_headers [OF h, of key_kwargs empty_effects 0 "[Some ''system.a'']"
             "''system''" "''a''" "[(''St2-Api-Key'', PStr ''xyz123'')]"]
  note n = run_request_headers [OF hb, of no_kwargs empty_effects 0 "[Some ''system.a'']"
             "''system''" "''a''" "[]"]
  have t1: "make_headers (get_auth_token example_world token_kwargs)
        (get_api_key example_world token_kwargs) = Inr [(''X-Auth-Token'', PStr ''tok456'')]"
    using t [THEN conjunct1] by (simp only: st option.case)
  have k1: "make_headers (get_auth_token example_world key_kwargs)
        (get_api_key example_world key_kwargs) = Inr [(''St2-Api-Key'', PStr ''xyz123'')]"
    using k [THEN conjunct1] by (simp only: sk option.case)
  have n1': "make_headers (get_auth_token bare_world no_kwargs) (get_api_key bare_world no_kwargs)
       = Inl (AnsibleError no_auth_msg)"
    using n [THEN conjunct1] by (simp only: sn option.case)
  note t2 = t [THEN conjunct2, THEN conjunct1, THEN mp, OF l]
  note t3 = t [THEN conjunct2, THEN conjunct2, THEN conjunct1, THEN mp,
               OF conjI [OF n3 conjI [OF p3 st]]]
  note k3 = k [THEN conjunct2, THEN conjunct2, THEN conjunct1, THEN mp,
               OF conjI [OF n1 conjI [OF p1 sk]]]
  note n4 = n [THEN conjunct2, THEN conjunct2, THEN conjunct2, THEN mp, OF sn]
  show ?thesis
    by (intro conjI h hb st sk sn n3 n1 p3 p1 l t1 k1 n1' t2
          t3 [THEN conjunct1] t3 [THEN conjunct2] k3 [THEN conjunct1] k3 [THEN conjunct2] n4)
qed

text \<open>
  C3, as stated, fails on an empty list of terms: the credentials are looked up inside
  the loop, so with no term nothing is looked up and \<open>run\<close> returns the empty list
  although no credential is available anywhere.
\<close>

theorem run_no_credentials_counterexample:
  "\<not> truthy (kwargs_get no_kwargs ''auth_token'' PNone)
   \<and> \<not> truthy (environ_get bare_world ''ST2_ACTION_AUTH_TOKEN'')
   \<and> \<not> truthy (environ_get bare_world ''ST2_AUTH_TOKEN'')
   \<and> \<not> truthy (kwargs_get no_kwargs ''api_key'' PNone)
   \<and> \<not> truthy (environ_get bare_world ''ST2_API_KEY'')
   \<and> snd (run bare_world [] no_kwargs empty_effects) = Inr []"
  by (simp add: run_def bare_world_def no_kwargs_def kwargs_get_def environ_get_def)

text \<open>
  C3, amended. When there is at least one term, the requests library is available, and
  neither a token nor an API key is found in the arguments or in the environment,
  \<open>run\<close> fails with the error about missing credentials, raised again as the error that
  names the first term, and no request is sent.
\<close>

theorem run_no_credentials:
  assumes "HAS_REQUESTS w" and "terms \<noteq> []"
    and "\<not> truthy (kwargs_get kw ''auth_token'' PNone)"
    and "\<not> truthy (environ_get w ''ST2_ACTION_AUTH_TOKEN'')"
    and "\<not> truthy (environ_get w ''ST2_AUTH_TOKEN'')"
    and "\<not> truthy (kwargs_get kw ''api_key'' PNone)"
    and "\<not> truthy (environ_get w ''ST2_API_KEY'')"
  shows "snd (run w terms kw s) = Inl (Locating (hd terms) (AnsibleError no_auth_msg))
       \<and> sent (fst (run w terms kw s)) = sent s"
proof -
  obtain t ts where terms: "terms = t # ts" using assms(2) by (cases terms) auto
  have "request_for w kw t = Inl (AnsibleError no_auth_msg)"
    using assms(3-7)
    by (simp add: request_for_def make_headers_def get_auth_token_def get_api_key_def Let_def)
  then have "sent (fst (body w kw t s)) = sent s"
    "snd (body w kw t s) = Inl (AnsibleError no_auth_msg)"
    by (simp_all add: body_not_sent)
  then show ?thesis using assms(1) terms by (simp add: run_def loop_Cons_fail)
qed

theorem run_no_credentials_witness:
  "HAS_REQUESTS bare_world \<and> [Some ''system.a'', Some ''system.b''] \<noteq> []
   \<and> \<not> truthy (kwargs_get no_kwargs ''auth_token'' PNone)
   \<and> \<not> truthy (environ_get bare_world ''ST2_ACTION_AUTH_TOKEN'')
   \<and> \<not> truthy (environ_get bare_world ''ST2_AUTH_TOKEN'')
   \<and> \<not> truthy (kwargs_get no_kwargs ''api_key'' PNone)
   \<and> \<not> truthy (environ_get bare_world ''ST2_API_KEY'')
   \<and> snd (run bare_world [Some ''system.a'', Some ''system.b''] no_kwargs empty_effects)
       = Inl (Locating (Some ''system.a'') (AnsibleError no_auth_msg))
   \<and> sent (fst (run bare_world [Some ''system.a'', Some ''system.b''] no_kwargs empty_effects)) = []"
  using run_no_credentials [of bare_world "[Some ''system.a'', Some ''system.b'']" no_kwargs empty_effects]
  by (simp add: bare_world_def no_kwargs_def kwargs_get_def environ_get_def empty_effects_def)

text \<open>
  C4. When the \<open>i\<close>-th request that \<open>run\<close> sends is answered by a response whose
  \<open>raise_for_status()\<close> raises \<open>e\<close>, \<open>run\<close> fails with the error that names the
  \<open>i\<close>-th term and carries \<open>e\<close>; this request is the last one sent, and no list of
  values is returned.
\<close>

theorem run_fail_fast:
  assumes "HAS_REQUESTS w"
    and "length (sent s) + i < length (sent (fst (run w terms kw s)))"
    and "requests_get w (length (sent s) + i)
           (sent (fst (run w terms kw s)) ! (length (sent s) + i)) = Inr resp"
    and "raise_for_status resp = Some e"
  shows "i < length terms
       \<and> snd (run w terms kw s) = Inl (Locating (terms ! i) e)
       \<and> length (sent (fst (run w terms kw s))) = length (sent s) + i + 1"
proof -
  have "read_value (requests_get w (length (sent s) + i)
           (sent (fst (run w terms kw s)) ! (length (sent s) + i))) = Inl e"
    using assms(3,4) by (simp add: read_value_def)
  then show ?thesis
    using assms(1,2) loop_fails_at [of s i w kw terms "[]" e] run_sent_nth(1) [OF assms(1,2)]
    by (simp add: run_def)
qed

theorem run_fail_fast_witness:
  "HAS_REQUESTS example_world
   \<and> length (sent empty_effects) + 1
       < length (sent (fst (run example_world
            [Some ''system.a'', Some ''system.b'', Some ''system.c''] token_kwargs empty_effects)))
   \<and> requests_get example_world (length (sent empty_effects) + 1)
         (sent (fst (run example_world
            [Some ''system.a'', Some ''system.b'', Some ''system.c''] token_kwargs empty_effects))
          ! (length (sent empty_effects) + 1))
       = Inr \<lparr>raise_for_status = Some (HTTPError ''404 Client Error: Not Found''),
              json_body = Inr (JObj [(''faultstring'', JStr ''not found'')])\<rparr>
   \<and> snd (run example_world
            [Some ''system.a'', Some ''system.b'', Some ''system.c''] token_kwargs empty_effects)
       = Inl (Locating (Some ''system.b'') (HTTPError ''404 Client Error: Not Found''))
   \<and> length (sent (fst (run example_world
            [Some ''system.a'', Some ''system.b'', Some ''system.c''] token_kwargs empty_effects)))
       = 2"
proof -
  have h: "HAS_REQUESTS example_world" by (simp add: example_world_def)
  have l: "length (sent empty_effects) + 1
       < length (sent (fst (run example_world
            [Some ''system.a'', Some ''system.b'', Some ''system.c''] token_kwargs empty_effects)))"
    by (simp add: example2) (simp add: empty_effects_def)
  have r: "requests_get example_world (length (sent empty_effects) + 1)
         (sent (fst (run example_world
            [Some ''system.a'', Some ''system.b'', Some ''system.c''] token_kwargs empty_effects))
          ! (length (sent empty_effects) + 1))
       = Inr \<lparr>raise_for_status = Some (HTTPError ''404 Client Error: Not Found''),
              json_body = Inr (JObj [(''faultstring'', JStr ''not found'')])\<rparr>"
    by (simp add: example_world_def example_get_def empty_effects_def)
  from run_fail_fast [OF h l r] h l r show ?thesis by (simp add: empty_effects_def)
qed

text \<open>
  C5. For a non-empty term: if the term is \<open>scope\<close>, a dot, and \<open>key\<close>, where
  \<open>scope\<close> has no dot, \<open>parse_scope_key\<close> returns \<open>(scope, key)\<close>, so only the first
  dot splits; a term without a dot gives the scope \<open>system\<close> and the whole term as the
  key; and a first segment \<open>st2kv\<close> is not removed: it is the scope.
\<close>

theorem parse_scope_key_first_dot:
  assumes "t \<noteq> []"
  shows "(\<forall>scope key. t = scope @ ''.'' @ key \<and> CHR ''.'' \<notin> set scope
            \<longrightarrow> parse_scope_key (Some t) = Inr (scope, key))
       \<and> (CHR ''.'' \<notin> set t \<longrightarrow> parse_scope_key (Some t) = Inr (''system'', t))
       \<and> (\<forall>rest. t = ''st2kv.'' @ rest \<longrightarrow> parse_scope_key (Some t) = Inr (''st2kv'', rest))"
proof -
  have dotted: "parse_scope_key (Some t) = Inr (scope, key)"
    if "t = scope @ ''.'' @ key" "CHR ''.'' \<notin> set scope" for scope key
  proof -
    have "CHR ''.'' \<in> set t" using that by simp
    then have "2 \<le> length (split (CHR ''.'') t)" by (rule length_split_present)
    moreover have "takeWhile (\<lambda>c. c \<noteq> CHR ''.'') t = scope"
      using that by (simp add: takeWhile_append)
    moreover have "dropWhile (\<lambda>c. c \<noteq> CHR ''.'') t = ''.'' @ key"
      using that by (simp add: dropWhile_append)
    moreover have "join ''.'' (tl (split (CHR ''.'') t)) = tl (dropWhile (\<lambda>c. c \<noteq> CHR ''.'') t)"
      using tl_split_present [OF \<open>CHR ''.'' \<in> set t\<close>] join_split [of "CHR ''.''"] by simp
    ultimately show ?thesis using assms
      by (simp add: parse_scope_key_def Let_def hd_split)
  qed
  have plain: "parse_scope_key (Some t) = Inr (''system'', t)" if "CHR ''.'' \<notin> set t"
    using that assms by (simp add: parse_scope_key_def tl_split_absent)
  have "parse_scope_key (Some t) = Inr (''st2kv'', rest)" if "t = ''st2kv.'' @ rest" for rest
    using dotted [of "''st2kv''" rest] that by simp
  with dotted plain show ?thesis by blast
qed

theorem parse_scope_key_first_dot_witness:
  "''system.my.coolkey'' \<noteq> []
   \<and> ''system.my.coolkey'' = ''system'' @ ''.'' @ ''my.coolkey''
   \<and> CHR ''.'' \<notin> set ''system''
   \<and> parse_scope_key (Some ''system.my.coolkey'') = Inr (''system'', ''my.coolkey'')"
proof -
  have ne: "''system.my.coolkey'' \<noteq> []" by simp
  have sp: "''system.my.coolkey'' = ''system'' @ ''.'' @ ''my.coolkey'' \<and> CHR ''.'' \<notin> set ''system''"
    by simp
  from parse_scope_key_first_dot [OF ne]
  have "''system.my.coolkey'' = ''system'' @ ''.'' @ ''my.coolkey'' \<and> CHR ''.'' \<notin> set ''system''
          \<longrightarrow> parse_scope_key (Some ''system.my.coolkey'') = Inr (''system'', ''my.coolkey'')"
    by blast
  with ne sp show ?thesis by blast
qed

text \<open>
  C6. \<open>parse_scope_key\<close> raises its error for \<open>None\<close> and for the empty string, and
  returns a scope and a key for every other term.
\<close>

theorem parse_scope_key_error_iff:
  "(term = None \<or> term = Some [] \<longrightarrow> parse_scope_key term = Inl (AnsibleError empty_key_msg))
   \<and> (term \<noteq> None \<and> term \<noteq> Some [] \<longrightarrow> (\<exists>scope key. parse_scope_key term = Inr (scope, key)))"
proof (cases "term")
  case None
  then show ?thesis by (simp add: parse_scope_key_def)
next
  case (Some t)
  obtain p ps where "split (CHR ''.'') t = p # ps"
    using split_not_Nil [of "CHR ''.''" t] by (cases "split (CHR ''.'') t") auto
  with Some show ?thesis by (auto simp: parse_scope_key_def Let_def)
qed

theorem parse_scope_key_error_iff_witness:
  "parse_scope_key None = Inl (AnsibleError empty_key_msg)
   \<and> parse_scope_key (Some []) = Inl (AnsibleError empty_key_msg)
   \<and> (\<exists>scope key. parse_scope_key (Some ''my_key'') = Inr (scope, key))"
  using parse_scope_key_error_iff [of None] parse_scope_key_error_iff [of "Some []"]
    parse_scope_key_error_iff [of "Some ''my_key''"]
  by simp

text \<open>
  C7. The URL of every request that \<open>run\<close> sends starts with the base URL, followed by
  \<open>/v1/keys/\<close>. The base URL is \<open>api_url\<close> when that is given; otherwise it is
  \<open>https://{hostname}:{port}/api\<close> when a port is given and \<open>https://{hostname}/api\<close>
  when not, where the host name is \<open>localhost\<close> when the argument \<open>hostname\<close> is
  absent. An option is given when Python takes its value as true.
\<close>

theorem run_base_url:
  assumes "HAS_REQUESTS w"
    and "length (sent s) + i < length (sent (fst (run w terms kw s)))"
  shows "\<exists>rest. url (sent (fst (run w terms kw s)) ! (length (sent s) + i)) =
     (if truthy (kwargs_get kw ''api_url'' PNone) then format (kwargs_get kw ''api_url'' PNone)
      else if truthy (kwargs_get kw ''port'' PNone)
        then ''https://'' @ (case kw ''hostname'' of None \<Rightarrow> ''localhost'' | Some h \<Rightarrow> format h)
             @ '':'' @ format (kwargs_get kw ''port'' PNone) @ ''/api''
        else ''https://'' @ (case kw ''hostname'' of None \<Rightarrow> ''localhost'' | Some h \<Rightarrow> format h)
             @ ''/api'')
     @ ''/v1/keys/'' @ rest"
proof -
  have r: "request_for w kw (terms ! i) = Inr (sent (fst (run w terms kw s)) ! (length (sent s) + i))"
    using assms by (rule run_sent_nth)
  then obtain scope key where "parse_scope_key (terms ! i) = Inr (scope, key)"
    using request_for_parsed by blast
  with r have "url (sent (fst (run w terms kw s)) ! (length (sent s) + i)) =
      make_url (get_api_url kw) key scope
        (kwargs_get kw ''decrypt'' (PBool False)) (kwargs_get kw ''user'' PNone)"
    by (rule request_for_url)
  then have "\<exists>rest. url (sent (fst (run w terms kw s)) ! (length (sent s) + i)) =
      format (get_api_url kw) @ ''/v1/keys/'' @ rest"
    by (simp add: make_url_def Let_def)
  then show ?thesis by (simp only: format_get_api_url)
qed

theorem run_base_url_witness:
  "HAS_REQUESTS example_world
   \<and> length (sent empty_effects) + 0
       < length (sent (fst (run example_world [Some ''system.a''] host_kwargs empty_effects)))
   \<and> (\<exists>rest. url (sent (fst (run example_world [Some ''system.a''] host_kwargs empty_effects))
                    ! (length (sent empty_effects) + 0))
        = ''https://st2.example:9101/api'' @ ''/v1/keys/'' @ rest)"
proof -
  have h: "HAS_REQUESTS example_world" by (simp add: example_world_def)
  have l: "length (sent empty_effects) + 0
       < length (sent (fst (run example_world [Some ''system.a''] host_kwargs empty_effects)))"
    by (simp add: example3) (simp add: empty_effects_def)
  from run_base_url [OF h l] h l show ?thesis
    by (simp add: host_kwargs_def kwargs_get_def)
qed

text \<open>
  C8. When, for every term, the request for it is built and is answered by a response
  that raises nothing and whose body is an object with a \<open>value\<close> field, \<open>run\<close>
  returns the list of these fields, one for each term and in the order of the terms,
  after sending one request for each term.
\<close>

theorem run_values_in_order:
  assumes "HAS_REQUESTS w"
    and "length vals = length terms"
    and "\<forall>i<length terms. \<exists>req resp kvs.
           request_for w kw (terms ! i) = Inr req
         \<and> requests_get w (length (sent s) + i) req = Inr resp
         \<and> raise_for_status resp = None
         \<and> json_body resp = Inr (JObj kvs)
         \<and> map_of kvs ''value'' = Some (vals ! i)"
  shows "snd (run w terms kw s) = Inr vals
       \<and> length (sent (fst (run w terms kw s))) = length (sent s) + length terms"
proof -
  define reqs where "reqs = map (\<lambda>t. projr (request_for w kw t)) terms"
  have len: "length reqs = length terms" by (simp add: reqs_def)
  have "\<forall>i<length terms. request_for w kw (terms ! i) = Inr (reqs ! i) \<and>
          read_value (requests_get w (length (sent s) + i) (reqs ! i)) = Inr (vals ! i)"
  proof (intro allI impI)
    fix i assume i: "i < length terms"
    with assms(3) obtain req resp kvs where
      "request_for w kw (terms ! i) = Inr req"
      "requests_get w (length (sent s) + i) req = Inr resp"
      "raise_for_status resp = None" "json_body resp = Inr (JObj kvs)"
      "map_of kvs ''value'' = Some (vals ! i)"
      by blast
    then show "request_for w kw (terms ! i) = Inr (reqs ! i) \<and>
          read_value (requests_get w (length (sent s) + i) (reqs ! i)) = Inr (vals ! i)"
      using i by (simp add: reqs_def read_value_def)
  qed
  from loop_all_succeed [OF assms(2) len this, of "[]"] show ?thesis
    using assms(1) len by (simp add: run_def)
qed

theorem run_values_in_order_witness:
  "HAS_REQUESTS always_world
   \<and> length [JNum 0, JNum 1] = length [Some ''a'', Some ''user.b'']
   \<and> request_for always_world no_kwargs (Some ''a'')
       = Inr \<lparr>url = ''https://localhost/api/v1/keys/a?scope=system'',
              headers = [(''X-Auth-Token'', PStr ''tok789'')], verify = PBool True\<rparr>
   \<and> requests_get always_world 0
          \<lparr>url = ''https://localhost/api/v1/keys/a?scope=system'',
           headers = [(''X-Auth-Token'', PStr ''tok789'')], verify = PBool True\<rparr>
       = Inr \<lparr>raise_for_status = None, json_body = Inr (JObj [(''value'', JNum 0)])\<rparr>
   \<and> request_for always_world no_kwargs (Some ''user.b'')
       = Inr \<lparr>url = ''https://localhost/api/v1/keys/b?scope=user'',
              headers = [(''X-Auth-Token'', PStr ''tok789'')], verify = PBool True\<rparr>
   \<and> requests_get always_world 1
          \<lparr>url = ''https://localhost/api/v1/keys/b?scope=user'',
           headers = [(''X-Auth-Token'', PStr ''tok789'')], verify = PBool True\<rparr>
       = Inr \<lparr>raise_for_status = None, json_body = Inr (JObj [(''value'', JNum 1)])\<rparr>
   \<and> snd (run always_world [Some ''a'', Some ''user.b''] no_kwargs empty_effects)
       = Inr [JNum 0, JNum 1]
   \<and> length (sent (fst (run always_world [Some ''a'', Some ''user.b''] no_kwargs empty_effects)))
       = 2"
proof -
  have h: "HAS_REQUESTS always_world" by (simp add: always_world_def)
  have l: "length [JNum 0, JNum 1] = length [Some ''a'', Some ''user.b'']" by simp
  have r0: "request_for always_world no_kwargs (Some ''a'')
       = Inr \<lparr>url = ''https://localhost/api/v1/keys/a?scope=system'',
              headers = [(''X-Auth-Token'', PStr ''tok789'')], verify = PBool True\<rparr>"
    by (simp add: request_for_def make_headers_def get_auth_token_def get_api_key_def
          get_api_url_def make_url_def kwargs_get_def environ_get_def no_kwargs_def
          always_world_def parse_scope_key_def Let_def)
  have r1: "request_for always_world no_kwargs (Some ''user.b'')
       = Inr \<lparr>url = ''https://localhost/api/v1/keys/b?scope=user'',
              headers = [(''X-Auth-Token'', PStr ''tok789'')], verify = PBool True\<rparr>"
    by (simp add: request_for_def make_headers_def get_auth_token_def get_api_key_def
          get_api_url_def make_url_def kwargs_get_def environ_get_def no_kwargs_def
          always_world_def parse_scope_key_def Let_def)
  have a: "\<forall>i<length [Some ''a'', Some ''user.b'']. \<exists>req resp kvs.
           request_for always_world no_kwargs ([Some ''a'', Some ''user.b''] ! i) = Inr req
         \<and> requests_get always_world (length (sent empty_effects) + i) req = Inr resp
         \<and> raise_for_status resp = None
         \<and> json_body resp = Inr (JObj kvs)
         \<and> map_of kvs ''value'' = Some ([JNum 0, JNum 1] ! i)"
  proof (intro allI impI)
    fix i assume "i < length [Some ''a'', Some ''user.b'']"
    then have "i = 0 \<or> i = 1" by auto
    then show "\<exists>req resp kvs.
           request_for always_world no_kwargs ([Some ''a'', Some ''user.b''] ! i) = Inr req
         \<and> requests_get always_world (length (sent empty_effects) + i) req = Inr resp
         \<and> raise_for_status resp = None
         \<and> json_body resp = Inr (JObj kvs)
         \<and> map_of kvs ''value'' = Some ([JNum 0, JNum 1] ! i)"
      using r0 r1 by (auto simp: always_world_def always_get_def empty_effects_def)
  qed
  have s: "requests_get always_world n req
       = Inr \<lparr>raise_for_status = None, json_body = Inr (JObj [(''value'', JNum (int n))])\<rparr>"
    for n req
    by (simp add: always_world_def always_get_def)
  from run_values_in_order [OF h l a] h l r0 r1 s [of 0] s [of 1] show ?thesis
    by (simp add: empty_effects_def)
qed

text \<open>
  C9. When the \<open>i\<close>-th request that \<open>run\<close> sends is answered by a response that
  raises nothing and whose body is an object without a \<open>value\<close> field, \<open>run\<close>
  fails with the error that names the \<open>i\<close>-th term and carries the \<open>KeyError\<close> for
  \<open>value\<close>; this request is the last one sent, and no list of values is returned.
\<close>

theorem run_missing_value:
  assumes "HAS_REQUESTS w"
    and "length (sent s) + i < length (sent (fst (run w terms kw s)))"
    and "requests_get w (length (sent s) + i)
           (sent (fst (run w terms kw s)) ! (length (sent s) + i)) = Inr resp"
    and "raise_for_status resp = None"
    and "json_body resp = Inr (JObj kvs)"
    and "map_of kvs ''value'' = None"
  shows "i < length terms
       \<and> snd (run w terms kw s) = Inl (Locating (terms ! i) (KeyError ''value''))
       \<and> length (sent (fst (run w terms kw s))) = length (sent s) + i + 1"
proof -
  have "read_value (requests_get w (length (sent s) + i)
           (sent (fst (run w terms kw s)) ! (length (sent s) + i))) = Inl (KeyError ''value'')"
    using assms(3-6) by (simp add: read_value_def)
  then show ?thesis
    using assms(1,2) loop_fails_at [of s i w kw terms "[]" "KeyError ''value''"]
      run_sent_nth(1) [OF assms(1,2)]
    by (simp add: run_def)
qed

theorem run_missing_value_witness:
  "HAS_REQUESTS example_world
   \<and> length (sent third_effects) + 0
       < length (sent (fst (run example_world [Some ''system.c'', Some ''system.d'']
                              token_kwargs third_effects)))
   \<and> requests_get example_world (length (sent third_effects) + 0)
         (sent (fst (run example_world [Some ''system.c'', Some ''system.d'']
                       token_kwargs third_effects)) ! (length (sent third_effects) + 0))
       = Inr \<lparr>raise_for_status = None, json_body = Inr (JObj [(''name'', JStr ''c'')])\<rparr>
   \<and> map_of [(''name'', JStr ''c'')] ''value'' = None
   \<and> snd (run example_world [Some ''system.c'', Some ''system.d''] token_kwargs third_effects)
       = Inl (Locating (Some ''system.c'') (KeyError ''value''))
   \<and> length (sent (fst (run example_world [Some ''system.c'', Some ''system.d'']
                           token_kwargs third_effects))) = 3"
proof -
  have h: "HAS_REQUESTS example_world" by (simp add: example_world_def)
  have l: "length (sent third_effects) + 0
       < length (sent (fst (run example_world [Some ''system.c'', Some ''system.d'']
                              token_kwargs third_effects)))"
    by (simp add: example4)
  have r: "requests_get example_world (length (sent third_effects) + 0)
         (sent (fst (run example_world [Some ''system.c'', Some ''system.d'']
                       token_kwargs third_effects)) ! (length (sent third_effects) + 0))
       = Inr \<lparr>raise_for_status = None, json_body = Inr (JObj [(''name'', JStr ''c'')])\<rparr>"
    by (simp add: example_world_def example_get_def third_effects_def)
  have m: "map_of [(''name'', JStr ''c'')] ''value'' = None" by simp
  from run_missing_value [OF h l r _ _ m] h l r m show ?thesis
    by (simp add: third_effects_def)
qed

text \<open>
  C10. With the requests library available, \<open>run\<close> on an empty list of terms returns
  the empty list and changes nothing: no request is sent and no credential is looked
  for, whatever the arguments and the environment hold.
\<close>

theorem run_no_terms:
  "HAS_REQUESTS w \<Longrightarrow> run w [] kw s = (s, Inr [])"
  by (simp add: run_def)

theorem run_no_terms_witness:
  "HAS_REQUESTS bare_world
   \<and> \<not> truthy (get_auth_token bare_world no_kwargs)
   \<and> \<not> truthy (get_api_key bare_world no_kwargs)
   \<and> run bare_world [] no_kwargs empty_effects = (empty_effects, Inr [])"
  using run_no_terms [of bare_world no_kwargs empty_effects]
  by (simp add: bare_world_def no_kwargs_def get_auth_token_def get_api_key_def
        kwargs_get_def environ_get_def)

end
